theory Spec2Isabelle
  imports Complex_Main
begin

section \<open>Python values used by the export script\<close>

text \<open>
  Exceptions are values. \<open>Raised\<close> marks an exception that a \<^verbatim>\<open>raise\<close> statement of the
  repository's own code throws; \<open>Library\<close> marks one that comes out of a call into a
  library (pathlib, argparse, or an attribute access on \<^verbatim>\<open>None\<close>).
\<close>

datatype exn =
    FileNotFoundError
  | FileExistsError
  | NotADirectoryError
  | ValueError
  | AttributeError
  | TypeError
  | IndexError
  | SystemExit nat

datatype error = Raised exn | Library exn

subsection \<open>Strings\<close>

text \<open>\<^verbatim>\<open>s.split(c)\<close> for a one-character separator: always at least one piece.\<close>

fun split_sep :: "char \<Rightarrow> string \<Rightarrow> string list" where
  "split_sep c [] = [[]]"
| "split_sep c (x # xs) =
     (if x = c then [] # split_sep c xs
      else (case split_sep c xs of
              [] \<Rightarrow> [[x]]
            | w # ws \<Rightarrow> (x # w) # ws))"

fun find_first :: "char \<Rightarrow> string \<Rightarrow> nat option" where
  "find_first c [] = None"
| "find_first c (x # xs) = (if x = c then Some 0 else map_option Suc (find_first c xs))"

text \<open>\<^verbatim>\<open>s.rfind(c)\<close>: the highest index of \<open>c\<close> in \<open>s\<close>, or \<open>-1\<close>.\<close>

definition rfind :: "char \<Rightarrow> string \<Rightarrow> int" where
  "rfind c s =
     (case find_first c (rev s) of
        None \<Rightarrow> - 1
      | Some j \<Rightarrow> int (length s) - 1 - int j)"

definition digit_char :: "nat \<Rightarrow> char" where
  "digit_char d = char_of (48 + d)"

text \<open>The decimal rendering of a non-negative integer, as an f-string produces it.\<close>

fun str_nat :: "nat \<Rightarrow> string" where
  "str_nat n =
     (if n < 10 then [digit_char n]
      else str_nat (n div 10) @ [digit_char (n mod 10)])"

declare str_nat.simps [simp del]

subsection \<open>Pure paths (pathlib, POSIX flavour)\<close>

text \<open>
  A path is its anchor (absolute or not) and its components. \<open>Path_of\<close> is the
  constructor \<^verbatim>\<open>Path(s)\<close>: it splits at slashes and drops empty and \<^verbatim>\<open>.\<close> components
  (\<^verbatim>\<open>..\<close> stays, as in pathlib). The POSIX special case of exactly two leading slashes is
  not distinguished from one.
\<close>

datatype path = Path (absolute: bool) (comps: "string list")

definition Path_of :: "string \<Rightarrow> path" where
  "Path_of s =
     Path (s \<noteq> [] \<and> hd s = CHR ''/'')
          (filter (\<lambda>c. c \<noteq> [] \<and> c \<noteq> ''.'') (split_sep CHR ''/'' s))"

text \<open>\<^verbatim>\<open>p / s\<close>: an absolute right operand replaces the left one.\<close>

definition joinpath :: "path \<Rightarrow> string \<Rightarrow> path" where
  "joinpath p s =
     (let q = Path_of s in
      if absolute q then q else Path (absolute p) (comps p @ comps q))"

definition parent :: "path \<Rightarrow> path" where
  "parent p = (if comps p = [] then p else Path (absolute p) (butlast (comps p)))"

definition path_name :: "path \<Rightarrow> string" where
  "path_name p = (if comps p = [] then [] else last (comps p))"

definition suffix :: "path \<Rightarrow> string" where
  "suffix p =
     (let name = path_name p; i = rfind CHR ''.'' name in
      if 0 < i \<and> i < int (length name) - 1 then drop (nat i) name else [])"

definition stem :: "path \<Rightarrow> string" where
  "stem p =
     (let name = path_name p; i = rfind CHR ''.'' name in
      if 0 < i \<and> i < int (length name) - 1 then take (nat i) name else name)"

text \<open>
  \<^verbatim>\<open>p.with_suffix(suf)\<close>: a \<^verbatim>\<open>ValueError\<close> for an invalid suffix or a path with an empty
  name, otherwise the last component with its old suffix replaced.
\<close>

definition with_suffix :: "path \<Rightarrow> string \<Rightarrow> error + path" where
  "with_suffix p suf =
     (if CHR ''/'' \<in> set suf \<or> (suf \<noteq> [] \<and> hd suf \<noteq> CHR ''.'') \<or> suf = ''.''
      then Inl (Library ValueError)
      else let name = path_name p in
        if name = [] then Inl (Library ValueError)
        else let old_suffix = suffix p;
                 name' = (if old_suffix = [] then name @ suf
                          else take (length name - length old_suffix) name @ suf)
             in Inr (Path (absolute p) (butlast (comps p) @ [name'])))"

subsection \<open>The file system\<close>

text \<open>
  The file system is the list of paths that are regular files and the list of paths that
  are directories, keyed by the lexical path (no symbolic links, no resolution of
  \<^verbatim>\<open>..\<close>, no permissions). A path without components (the root, or the current
  directory) is always an existing directory.
\<close>

record filesystem =
  files :: "path list"
  dirs :: "path list"

definition is_dir :: "filesystem \<Rightarrow> path \<Rightarrow> bool" where
  "is_dir fs p \<longleftrightarrow> comps p = [] \<or> p \<in> set (dirs fs)"

definition is_file :: "filesystem \<Rightarrow> path \<Rightarrow> bool" where
  "is_file fs p \<longleftrightarrow> \<not> is_dir fs p \<and> p \<in> set (files fs)"

definition path_exists :: "filesystem \<Rightarrow> path \<Rightarrow> bool" where
  "path_exists fs p \<longleftrightarrow> is_dir fs p \<or> is_file fs p"

text \<open>\<^verbatim>\<open>os.mkdir(p)\<close>: one directory, whose parent must be an existing directory.\<close>

definition os_mkdir :: "filesystem \<Rightarrow> path \<Rightarrow> error + filesystem" where
  "os_mkdir fs p =
     (if path_exists fs p then Inl (Library FileExistsError)
      else if is_file fs (parent p) then Inl (Library NotADirectoryError)
      else if \<not> is_dir fs (parent p) then Inl (Library FileNotFoundError)
      else Inr (fs\<lparr>dirs := p # dirs fs\<rparr>))"

text \<open>
  \<^verbatim>\<open>Path.mkdir(parents, exist_ok)\<close> as pathlib writes it: try \<^verbatim>\<open>os.mkdir\<close>; on
  \<^verbatim>\<open>FileNotFoundError\<close> create the parent first (when \<open>parents\<close>) and retry without
  \<open>parents\<close>; on any other \<^verbatim>\<open>OSError\<close> succeed only if \<open>exist_ok\<close> and the path is a
  directory.
\<close>

function mkdir :: "filesystem \<Rightarrow> path \<Rightarrow> bool \<Rightarrow> bool \<Rightarrow> error + filesystem" where
  "mkdir fs p parents exist_ok =
     (case os_mkdir fs p of
        Inr fs' \<Rightarrow> Inr fs'
      | Inl e \<Rightarrow>
          if e = Library FileNotFoundError then
            (if \<not> parents \<or> parent p = p then Inl e
             else (case mkdir fs (parent p) True True of
                     Inl e' \<Rightarrow> Inl e'
                   | Inr fs' \<Rightarrow> mkdir fs' p False exist_ok))
          else if \<not> exist_ok \<or> \<not> is_dir fs p then Inl e
          else Inr fs)"
  by pat_completeness auto
termination
proof (relation "measures [\<lambda>(fs, p, parents, exist_ok). length (comps p),
                           \<lambda>(fs, p, parents, exist_ok). if parents then 1 else 0]")
  show "wf (measures [\<lambda>(fs, p, parents, exist_ok). length (comps p),
                      \<lambda>(fs, p, parents, exist_ok). if parents then 1 else 0])"
    by simp
next
  fix fs :: filesystem and p :: path and parents exist_ok :: bool and e :: error
  assume "\<not> (\<not> parents \<or> parent p = p)"
  then have "comps p \<noteq> []"
    by (auto simp: parent_def)
  then show "((fs, parent p, True, True), fs, p, parents, exist_ok)
      \<in> measures [\<lambda>(fs, p, parents, exist_ok). length (comps p),
                   \<lambda>(fs, p, parents, exist_ok). if parents then 1 else 0]"
    by (simp add: parent_def)
next
  fix fs fs' :: filesystem and p :: path and parents exist_ok :: bool and e :: error
  assume "\<not> (\<not> parents \<or> parent p = p)"
  then show "((fs', p, False, exist_ok), fs, p, parents, exist_ok)
      \<in> measures [\<lambda>(fs, p, parents, exist_ok). length (comps p),
                   \<lambda>(fs, p, parents, exist_ok). if parents then 1 else 0]"
    by simp
qed

declare mkdir.simps [simp del]

subsection \<open>Facts about strings and paths\<close>

lemma split_sep_nonempty: "split_sep c s \<noteq> []"
  by (induction s) (auto split: list.splits)

lemma split_sep_no_sep: "w \<in> set (split_sep c s) \<Longrightarrow> c \<notin> set w"
  by (induction s arbitrary: w) (auto split: list.splits if_splits)

lemma split_sep_append:
  "c \<notin> set ys \<Longrightarrow>
     split_sep c (xs @ ys) = butlast (split_sep c xs) @ [last (split_sep c xs) @ ys]"
proof (induction xs)
  case Nil
  then show ?case
    by (induction ys) (auto split: list.splits)
next
  case (Cons x xs)
  then show ?case
    using split_sep_nonempty [of c xs] split_sep_nonempty [of c "xs @ ys"]
    by (auto split: list.splits simp: butlast_append)
qed

lemma str_nat_bound: "n < 10 ^ length (str_nat n)"
proof (induction n rule: str_nat.induct)
  case (1 n)
  show ?case
  proof (cases "n < 10")
    case True
    then show ?thesis by (simp add: str_nat.simps [of n])
  next
    case False
    with 1 have "n div 10 < 10 ^ length (str_nat (n div 10))" by simp
    then have "n < 10 * 10 ^ length (str_nat (n div 10))" by linarith
    with False show ?thesis by (simp add: str_nat.simps [of n])
  qed
qed

lemma find_first_None: "find_first c s = None \<longleftrightarrow> c \<notin> set s"
  by (induction s) auto

lemma find_first_append: "c \<notin> set ys \<Longrightarrow> find_first c (ys @ c # xs) = Some (length ys)"
  by (induction ys) auto

lemma rfind_append: "c \<notin> set ys \<Longrightarrow> rfind c (xs @ c # ys) = int (length xs)"
  using find_first_append [of c "rev ys" "rev xs"]
  by (simp add: rfind_def)

subsection \<open>Sizes, for the termination of the name search\<close>

definition path_size :: "path \<Rightarrow> nat" where
  "path_size p = sum_list (map length (comps p))"

definition fs_bound :: "filesystem \<Rightarrow> nat" where
  "fs_bound fs = sum_list (map path_size (files fs @ dirs fs))"

lemma digit_char_not_slash: "d < 10 \<Longrightarrow> digit_char d \<noteq> CHR ''/''"
proof
  assume d: "d < 10" and "digit_char d = CHR ''/''"
  then have "of_char (char_of (48 + d)) = (of_char CHR ''/'' :: nat)"
    by (simp add: digit_char_def)
  with d show False by simp
qed

lemma str_nat_no_slash: "CHR ''/'' \<notin> set (str_nat n)"
proof (induction n rule: str_nat.induct)
  case (1 n)
  show ?case
  proof (cases "n < 10")
    case True
    then show ?thesis
      using digit_char_not_slash [of n] by (simp add: str_nat.simps [of n])
  next
    case False
    with 1 show ?thesis
      using digit_char_not_slash [of "n mod 10"] by (simp add: str_nat.simps [of n])
  qed
qed

lemma split_sep_single: "c \<notin> set s \<Longrightarrow> split_sep c s = [s]"
  by (induction s) auto

lemma Path_of_single:
  assumes "CHR ''/'' \<notin> set s" "s \<noteq> []" "s \<noteq> ''.''"
  shows "Path_of s = Path False [s]"
  using assms by (cases s) (auto simp: Path_of_def split_sep_single)

lemma joinpath_single:
  assumes "CHR ''/'' \<notin> set s" "s \<noteq> []" "s \<noteq> ''.''"
  shows "joinpath p s = Path (absolute p) (comps p @ [s])"
  by (simp add: joinpath_def Path_of_single [OF assms])

lemma parent_joinpath_single:
  assumes "CHR ''/'' \<notin> set s" "s \<noteq> []" "s \<noteq> ''.''"
  shows "parent (joinpath p s) = p"
  by (simp add: joinpath_single [OF assms] parent_def)

lemma path_name_joinpath_single:
  assumes "CHR ''/'' \<notin> set s" "s \<noteq> []" "s \<noteq> ''.''"
  shows "path_name (joinpath p s) = s"
  by (simp add: joinpath_single [OF assms] path_name_def)

lemma Path_of_comps_wf:
  "c \<in> set (comps (Path_of s)) \<Longrightarrow> CHR ''/'' \<notin> set c \<and> c \<noteq> [] \<and> c \<noteq> ''.''"
  by (auto simp: Path_of_def dest: split_sep_no_sep)

lemma Path_of_last_append:
  assumes "CHR ''/'' \<notin> set ys" "2 \<le> length ys"
  shows "comps (Path_of (xs @ ys)) \<noteq> [] \<and>
         last (comps (Path_of (xs @ ys))) = last (split_sep CHR ''/'' xs) @ ys"
proof -
  let ?l = "last (split_sep CHR ''/'' xs) @ ys"
  have len: "2 \<le> length ?l" using assms by simp
  have "length ''.'' = 1" by simp
  with len have ne: "?l \<noteq> [] \<and> ?l \<noteq> ''.''"
    by (metis One_nat_def length_0_conv not_numeral_le_zero numeral_le_one_iff semiring_norm(69))
  have "comps (Path_of (xs @ ys)) =
      filter (\<lambda>c. c \<noteq> [] \<and> c \<noteq> ''.'') (butlast (split_sep CHR ''/'' xs)) @ [?l]"
    using ne by (simp add: Path_of_def split_sep_append [OF assms(1)])
  then show ?thesis by simp
qed

lemma joinpath_last:
  assumes "comps (Path_of s) \<noteq> []"
  shows "comps (joinpath p s) \<noteq> [] \<and> last (comps (joinpath p s)) = last (comps (Path_of s))"
  using assms by (simp add: joinpath_def Let_def)

lemma elem_le_sum_list: "x \<in> set xs \<Longrightarrow> (f x :: nat) \<le> sum_list (map f xs)"
  by (induction xs) auto

lemma path_size_last: "comps p \<noteq> [] \<Longrightarrow> length (last (comps p)) \<le> path_size p"
  unfolding path_size_def
  by (rule elem_le_sum_list) simp

lemma path_exists_bound:
  assumes "path_exists fs p" "comps p \<noteq> []"
  shows "path_size p \<le> fs_bound fs"
proof -
  from assms have "p \<in> set (files fs @ dirs fs)"
    by (auto simp: path_exists_def is_dir_def is_file_def)
  then show ?thesis
    unfolding fs_bound_def
    by (rule elem_le_sum_list)
qed

lemma numbered_exists_bound:
  assumes "path_exists fs (joinpath p (f @ ''-'' @ str_nat k @ ''.onnx''))"
  shows "k < 10 ^ fs_bound fs"
proof -
  let ?ys = "''-'' @ str_nat k @ ''.onnx''"
  let ?q = "joinpath p (f @ ?ys)"
  have ns: "CHR ''/'' \<notin> set ?ys" using str_nat_no_slash [of k] by simp
  have l2: "2 \<le> length ?ys" by simp
  from Path_of_last_append [OF ns l2, of f]
  have P: "comps (Path_of (f @ ?ys)) \<noteq> []"
    and L: "last (comps (Path_of (f @ ?ys))) = last (split_sep CHR ''/'' f) @ ?ys"
    by simp_all
  from joinpath_last [OF P, of p]
  have Q: "comps ?q \<noteq> []" and LQ: "last (comps ?q) = last (split_sep CHR ''/'' f) @ ?ys"
    using L by simp_all
  have "length (str_nat k) \<le> length (last (comps ?q))" using LQ by simp
  also have "\<dots> \<le> path_size ?q" by (rule path_size_last [OF Q])
  also have "\<dots> \<le> fs_bound fs" using path_exists_bound [OF _ Q] assms by simp
  finally have "length (str_nat k) \<le> fs_bound fs" .
  then have "(10::nat) ^ length (str_nat k) \<le> 10 ^ fs_bound fs"
    by (simp add: power_increasing)
  with str_nat_bound [of k] show ?thesis by linarith
qed

subsection \<open>The argument structure of the export script\<close>

text \<open>
  The loop of \<^verbatim>\<open>get_safe_name\<close>: its state is the candidate name and the counter. It
  terminates because the file system is finite and the numbered names grow.
\<close>

function safe_loop :: "filesystem \<Rightarrow> string \<Rightarrow> path \<Rightarrow> nat \<Rightarrow> path" where
  "safe_loop fs filename nm existence_counter =
     (if path_exists fs nm then
        safe_loop fs filename
          (joinpath (parent nm) (filename @ ''-'' @ str_nat (existence_counter + 1) @ ''.onnx''))
          (existence_counter + 1)
      else nm)"
  by pat_completeness auto
termination
proof (relation "measure (\<lambda>(fs, filename, nm, c).
          if path_exists fs nm then 2 + (10 ^ fs_bound fs - c) else 0)")
  show "wf (measure (\<lambda>(fs, filename, nm, c).
          if path_exists fs nm then 2 + (10 ^ fs_bound fs - c) else 0))"
    by simp
next
  fix fs :: filesystem and filename :: string and nm :: path and existence_counter :: nat
  assume "path_exists fs nm"
  then show "((fs, filename,
        joinpath (parent nm) (filename @ ''-'' @ str_nat (existence_counter + 1) @ ''.onnx''),
        existence_counter + 1), fs, filename, nm, existence_counter)
      \<in> measure (\<lambda>(fs, filename, nm, c).
          if path_exists fs nm then 2 + (10 ^ fs_bound fs - c) else 0)"
    using numbered_exists_bound [of fs "parent nm" filename "existence_counter + 1"]
    by auto
qed

declare safe_loop.simps [simp del]

text \<open>
  The dataclass. Its path fields hold strings when the constructor receives them and
  paths after \<^verbatim>\<open>__post_init__\<close>, hence the two type parameters; \<open>name\<close> may be
  \<^verbatim>\<open>None\<close> on entry.
\<close>

record ('p, 'n) ExportArgs =
  checkpoint :: 'p
  config :: string
  recipe :: "string option"
  no_qat :: bool
  batch_size :: int
  image_shape :: "int list"
  save_dir :: 'p
  name :: 'n

text \<open>Lines 116 to 119 of \<^verbatim>\<open>get_safe_name\<close>: the name given, or the checkpoint's.\<close>

definition initial_name :: "(path, string option) ExportArgs \<Rightarrow> error + path" where
  "initial_name self =
     (let by_checkpoint =
            (case with_suffix (checkpoint self) ''.onnx'' of
               Inl e \<Rightarrow> Inl e
             | Inr q \<Rightarrow> Inr (Path_of (path_name q)))
      in case name self of
           None \<Rightarrow> by_checkpoint
         | Some s \<Rightarrow> if s \<noteq> [] then Inr (Path_of s) else by_checkpoint)"

definition get_safe_name :: "filesystem \<Rightarrow> (path, string option) ExportArgs \<Rightarrow> error + path" where
  "get_safe_name fs self =
     (case initial_name self of
        Inl e \<Rightarrow> Inl e
      | Inr nm \<Rightarrow>
          let filename = stem nm;
              nm' = joinpath (save_dir self) (filename @ ''.onnx'')
          in Inr (safe_loop fs filename nm' 0))"

definition post_init ::
  "filesystem \<Rightarrow> (string, string option) ExportArgs
     \<Rightarrow> error + (filesystem \<times> (path, path) ExportArgs)" where
  "post_init fs a =
     (let ckpt = Path_of (checkpoint a) in
      if \<not> path_exists fs ckpt then Inl (Raised FileNotFoundError)
      else
        let sd = Path_of (save_dir a) in
        case mkdir fs sd True True of
          Inl e \<Rightarrow> Inl e
        | Inr fs' \<Rightarrow>
            (case get_safe_name fs'
                    \<lparr>checkpoint = ckpt, config = config a, recipe = recipe a,
                     no_qat = no_qat a, batch_size = batch_size a,
                     image_shape = image_shape a, save_dir = sd, name = name a\<rparr> of
               Inl e \<Rightarrow> Inl e
             | Inr nm \<Rightarrow>
                 Inr (fs', \<lparr>checkpoint = ckpt, config = config a, recipe = recipe a,
                           no_qat = no_qat a, batch_size = batch_size a,
                           image_shape = image_shape a, save_dir = sd, name = nm\<rparr>)))"

section \<open>Properties of the argument structure\<close>

text \<open>
  The names the search of \<^verbatim>\<open>get_safe_name\<close> walks through, stated from the
  specification: candidate \<open>0\<close> is \<^verbatim>\<open>dir/filename.onnx\<close>, candidate \<open>k > 0\<close> is
  \<^verbatim>\<open>dir/filename-k.onnx\<close>.
\<close>

definition numbered_name :: "path \<Rightarrow> string \<Rightarrow> nat \<Rightarrow> path" where
  "numbered_name dir filename k =
     joinpath dir (filename @ (if k = 0 then [] else ''-'' @ str_nat k) @ ''.onnx'')"

lemma numbered_name_single:
  assumes "CHR ''/'' \<notin> set f"
  shows "numbered_name d f k =
     Path (absolute d) (comps d @ [f @ (if k = 0 then [] else ''-'' @ str_nat k) @ ''.onnx''])"
proof -
  let ?s = "f @ (if k = 0 then [] else ''-'' @ str_nat k) @ ''.onnx''"
  have a: "CHR ''/'' \<notin> set ?s" using assms str_nat_no_slash [of k] by simp
  have "5 \<le> length ?s" by simp
  then have b: "?s \<noteq> []" and c: "?s \<noteq> ''.''" by auto
  show ?thesis unfolding numbered_name_def by (rule joinpath_single [OF a b c])
qed

lemma numbered_name_parent:
  "CHR ''/'' \<notin> set f \<Longrightarrow> parent (numbered_name d f k) = d"
  by (simp add: numbered_name_single parent_def)

lemma numbered_name_path_name:
  "CHR ''/'' \<notin> set f \<Longrightarrow>
     path_name (numbered_name d f k) = f @ (if k = 0 then [] else ''-'' @ str_nat k) @ ''.onnx''"
  by (simp add: numbered_name_single path_name_def)

lemma suffix_onnx:
  assumes "b \<noteq> []"
  shows "suffix (Path a (cs @ [b @ ''.onnx''])) = ''.onnx''"
proof -
  have "rfind CHR ''.'' (b @ CHR ''.'' # ''onnx'') = int (length b)"
    by (rule rfind_append) simp
  then have "rfind CHR ''.'' (b @ ''.onnx'') = int (length b)" by simp
  with assms show ?thesis by (simp add: suffix_def path_name_def Let_def)
qed

lemma numbered_name_suffix:
  assumes "CHR ''/'' \<notin> set f" "f \<noteq> [] \<or> k \<noteq> 0"
  shows "suffix (numbered_name d f k) = ''.onnx''"
proof -
  let ?b = "f @ (if k = 0 then [] else ''-'' @ str_nat k)"
  from assms(2) have ne: "?b \<noteq> []" by auto
  have "numbered_name d f k = Path (absolute d) (comps d @ [?b @ ''.onnx''])"
    using numbered_name_single [OF assms(1), of d k] by simp
  with suffix_onnx [OF ne] show ?thesis by simp
qed

lemma numbered_name_Suc:
  "CHR ''/'' \<notin> set f \<Longrightarrow>
     joinpath (parent (numbered_name d f c)) (f @ ''-'' @ str_nat (c + 1) @ ''.onnx'')
       = numbered_name d f (c + 1)"
  by (simp add: numbered_name_parent) (simp add: numbered_name_def)

lemma safe_loop_spec:
  "CHR ''/'' \<notin> set f \<Longrightarrow> nm = numbered_name d f c \<Longrightarrow>
     \<exists>k\<ge>c. safe_loop fs f nm c = numbered_name d f k
          \<and> \<not> path_exists fs (numbered_name d f k)
          \<and> (\<forall>j. c \<le> j \<and> j < k \<longrightarrow> path_exists fs (numbered_name d f j))"
proof (induction fs f nm c rule: safe_loop.induct)
  case (1 fs f nm c)
  show ?case
  proof (cases "path_exists fs nm")
    case False
    then have "safe_loop fs f nm c = nm" by (simp add: safe_loop.simps [of fs f nm c])
    with False 1(3) show ?thesis by auto
  next
    case True
    let ?nm' = "joinpath (parent nm) (f @ ''-'' @ str_nat (c + 1) @ ''.onnx'')"
    have nm': "?nm' = numbered_name d f (c + 1)"
      using numbered_name_Suc [OF 1(2), of d c] 1(3) by simp
    from 1(1) [OF True 1(2) nm']
    obtain k where k: "c + 1 \<le> k" "safe_loop fs f ?nm' (c + 1) = numbered_name d f k"
      "\<not> path_exists fs (numbered_name d f k)"
      "\<forall>j. c + 1 \<le> j \<and> j < k \<longrightarrow> path_exists fs (numbered_name d f j)"
      by blast
    have step: "safe_loop fs f nm c = safe_loop fs f ?nm' (c + 1)"
      using True by (simp add: safe_loop.simps [of fs f nm c])
    have "\<forall>j. c \<le> j \<and> j < k \<longrightarrow> path_exists fs (numbered_name d f j)"
    proof (intro allI impI)
      fix j assume j: "c \<le> j \<and> j < k"
      show "path_exists fs (numbered_name d f j)"
      proof (cases "j = c")
        case True
        with \<open>path_exists fs nm\<close> 1(3) show ?thesis by simp
      next
        case False
        with j k(4) show ?thesis by simp
      qed
    qed
    with k step show ?thesis
      by (intro exI [of _ k]) simp
  qed
qed

lemma path_name_Path_of_no_slash: "CHR ''/'' \<notin> set (path_name (Path_of s))"
proof (cases "comps (Path_of s) = []")
  case True
  then show ?thesis by (simp add: path_name_def)
next
  case False
  then have "last (comps (Path_of s)) \<in> set (comps (Path_of s))" by simp
  from Path_of_comps_wf [OF this] False show ?thesis by (simp add: path_name_def)
qed

lemma stem_Path_of_no_slash: "CHR ''/'' \<notin> set (stem (Path_of s))"
  using path_name_Path_of_no_slash [of s]
  by (auto simp: stem_def Let_def dest: in_set_takeD)

lemma initial_name_Path_of: "initial_name self = Inr nm \<Longrightarrow> \<exists>s. nm = Path_of s"
  by (auto simp: initial_name_def Let_def split: sum.splits option.splits if_splits)

lemma get_safe_name_spec:
  assumes "get_safe_name fs self = Inr r"
  shows "\<exists>nm k. initial_name self = Inr nm
          \<and> r = numbered_name (save_dir self) (stem nm) k
          \<and> \<not> path_exists fs r
          \<and> (\<forall>j<k. path_exists fs (numbered_name (save_dir self) (stem nm) j))
          \<and> parent r = save_dir self
          \<and> path_name r = stem nm @ (if k = 0 then [] else ''-'' @ str_nat k) @ ''.onnx''
          \<and> (stem nm \<noteq> [] \<or> k \<noteq> 0 \<longrightarrow> suffix r = ''.onnx'')"
proof -
  from assms obtain nm where nm: "initial_name self = Inr nm"
    and r: "r = safe_loop fs (stem nm) (joinpath (save_dir self) (stem nm @ ''.onnx'')) 0"
    by (auto simp: get_safe_name_def Let_def split: sum.splits)
  from initial_name_Path_of [OF nm] have ns: "CHR ''/'' \<notin> set (stem nm)"
    using stem_Path_of_no_slash by auto
  have base: "joinpath (save_dir self) (stem nm @ ''.onnx'') = numbered_name (save_dir self) (stem nm) 0"
    by (simp add: numbered_name_def)
  from safe_loop_spec [OF ns base, of fs] r
  obtain k where k: "r = numbered_name (save_dir self) (stem nm) k"
    "\<not> path_exists fs (numbered_name (save_dir self) (stem nm) k)"
    "\<forall>j. 0 \<le> j \<and> j < k \<longrightarrow> path_exists fs (numbered_name (save_dir self) (stem nm) j)"
    by auto
  show ?thesis
    using nm k numbered_name_parent [OF ns, of "save_dir self" k]
      numbered_name_path_name [OF ns, of "save_dir self" k]
      numbered_name_suffix [OF ns, of k "save_dir self"]
    by (intro exI [of _ nm] exI [of _ k]) simp
qed

subsection \<open>Creating the output directory\<close>














subsection \<open>The default output name\<close>

lemma with_suffix_onnx:
  assumes "path_name p \<noteq> []"
  shows "with_suffix p ''.onnx'' =
           Inr (Path (absolute p) (butlast (comps p) @ [stem p @ ''.onnx'']))"
proof -
  let ?name = "path_name p"
  let ?i = "rfind CHR ''.'' ?name"
  have "(if suffix p = [] then ?name @ ''.onnx''
         else take (length ?name - length (suffix p)) ?name @ ''.onnx'') = stem p @ ''.onnx''"
  proof (cases "0 < ?i \<and> ?i < int (length ?name) - 1")
    case True
    then have "nat ?i < length ?name" by linarith
    with True show ?thesis by (simp add: suffix_def stem_def Let_def)
  next
    case False
    then have "suffix p = []" "stem p = ?name"
      unfolding suffix_def stem_def Let_def by (simp_all only: if_False)
    then show ?thesis by simp
  qed
  with assms show ?thesis by (simp add: with_suffix_def Let_def)
qed

lemma with_suffix_no_name: "path_name p = [] \<Longrightarrow> with_suffix p ''.onnx'' = Inl (Library ValueError)"
  by (simp add: with_suffix_def)

lemma stem_nonempty: "path_name p \<noteq> [] \<Longrightarrow> stem p \<noteq> []"
  by (auto simp: stem_def Let_def)

lemma stem_onnx:
  assumes "b \<noteq> []" "CHR ''/'' \<notin> set b"
  shows "Path_of (b @ ''.onnx'') = Path False [b @ ''.onnx''] \<and> stem (Path_of (b @ ''.onnx'')) = b"
proof -
  have P: "Path_of (b @ ''.onnx'') = Path False [b @ ''.onnx'']"
    using assms by (intro Path_of_single) auto
  have "rfind CHR ''.'' (b @ CHR ''.'' # ''onnx'') = int (length b)"
    by (rule rfind_append) simp
  then have "rfind CHR ''.'' (b @ ''.onnx'') = int (length b)" by simp
  with assms(1) P show ?thesis by (simp add: stem_def path_name_def Let_def)
qed

lemma initial_name_default:
  assumes "name self = None \<or> name self = Some []" "checkpoint self = Path_of c"
    "path_name (checkpoint self) \<noteq> []"
  shows "initial_name self = Inr (Path False [stem (checkpoint self) @ ''.onnx''])
       \<and> stem (Path False [stem (checkpoint self) @ ''.onnx'']) = stem (checkpoint self)"
proof -
  let ?b = "stem (checkpoint self)"
  have b: "?b \<noteq> []" "CHR ''/'' \<notin> set ?b"
    using stem_nonempty [OF assms(3)] stem_Path_of_no_slash [of c] assms(2) by simp_all
  let ?q = "Path (absolute (checkpoint self)) (butlast (comps (checkpoint self)) @ [?b @ ''.onnx''])"
  have "path_name ?q = ?b @ ''.onnx''" by (simp add: path_name_def)
  with assms(1) with_suffix_onnx [OF assms(3)] stem_onnx [OF b]
  show ?thesis by (auto simp: initial_name_def)
qed

lemma initial_name_no_name:
  assumes "name self = None \<or> name self = Some []" "path_name (checkpoint self) = []"
  shows "initial_name self = Inl (Library ValueError)"
  using assms with_suffix_no_name [OF assms(2)] by (auto simp: initial_name_def)

lemma initial_name_given:
  "name self = Some s \<Longrightarrow> s \<noteq> [] \<Longrightarrow> initial_name self = Inr (Path_of s)"
  by (simp add: initial_name_def)



lemma safe_loop_free: "\<not> path_exists fs nm \<Longrightarrow> safe_loop fs f nm c = nm"
  by (simp add: safe_loop.simps [of fs f nm c])

lemma post_init_Inr:
  assumes "post_init fs a = Inr (fs', self)"
  shows "path_exists fs (Path_of (checkpoint a))
       \<and> mkdir fs (Path_of (save_dir a)) True True = Inr fs'
       \<and> checkpoint self = Path_of (checkpoint a)
       \<and> save_dir self = Path_of (save_dir a)
       \<and> get_safe_name fs'
            \<lparr>checkpoint = Path_of (checkpoint a), config = config a, recipe = recipe a,
             no_qat = no_qat a, batch_size = batch_size a, image_shape = image_shape a,
             save_dir = Path_of (save_dir a), name = name a\<rparr> = Inr (name self)"
  using assms by (auto simp: post_init_def Let_def split: if_splits sum.splits)

subsection \<open>A concrete run\<close>

text \<open>
  A checkpoint \<^verbatim>\<open>ck/m.pth\<close>, an output directory that already holds \<^verbatim>\<open>m.onnx\<close> and
  \<^verbatim>\<open>m-1.onnx\<close>, and the script's default arguments: the name chosen is \<^verbatim>\<open>out/m-2.onnx\<close>.
\<close>

definition example_fs :: filesystem where
  "example_fs =
     \<lparr>files = [Path False [''ck'', ''m.pth''], Path False [''out'', ''m.onnx''],
               Path False [''out'', ''m-1.onnx'']],
      dirs = [Path False [''ck''], Path False [''out'']]\<rparr>"

definition example_args :: "(string, string option) ExportArgs" where
  "example_args =
     \<lparr>checkpoint = ''ck/m.pth'', config = ''yolact_base_config'', recipe = None,
      no_qat = False, batch_size = 1, image_shape = [3, 550, 550],
      save_dir = ''./out'', name = None\<rparr>"

definition example_self :: "(path, path) ExportArgs" where
  "example_self =
     \<lparr>checkpoint = Path False [''ck'', ''m.pth''], config = ''yolact_base_config'',
      recipe = None, no_qat = False, batch_size = 1, image_shape = [3, 550, 550],
      save_dir = Path False [''out''], name = Path False [''out'', ''m-2.onnx'']\<rparr>"

lemma example_post_init: "post_init example_fs example_args = Inr (example_fs, example_self)"
  by code_simp

subsection \<open>The output name never collides\<close>

text \<open>
  Claim C1. Whenever \<^verbatim>\<open>get_safe_name\<close> returns, the name it returns lies directly in
  \<open>save_dir\<close>, its file name ends in \<^verbatim>\<open>.onnx\<close> (which is its suffix unless the file name
  is \<^verbatim>\<open>.onnx\<close> alone), and it does not exist in the file system at that moment. It is candidate \<open>k\<close> of the numbered names for the stem, where every
  candidate before \<open>k\<close> exists: so it is \<^verbatim>\<open>save_dir/stem.onnx\<close> when that is free, and
  otherwise \<^verbatim>\<open>save_dir/stem-k.onnx\<close> for the least \<open>k \<ge> 1\<close> that is free. The same holds
  for the name stored by every successful construction, in the file system the
  construction leaves behind. The search is a total function, so it always returns.
\<close>

theorem get_safe_name_fresh:
  "(get_safe_name fs self = Inr r \<longrightarrow>
      (\<exists>nm k. initial_name self = Inr nm
          \<and> r = numbered_name (save_dir self) (stem nm) k
          \<and> (\<forall>j<k. path_exists fs (numbered_name (save_dir self) (stem nm) j))
          \<and> \<not> path_exists fs r
          \<and> parent r = save_dir self
          \<and> path_name r = stem nm @ (if k = 0 then [] else ''-'' @ str_nat k) @ ''.onnx''
          \<and> (stem nm \<noteq> [] \<or> k \<noteq> 0 \<longrightarrow> suffix r = ''.onnx'')))
   \<and> (post_init fs0 a = Inr (fs', args) \<longrightarrow>
         \<not> path_exists fs' (name args) \<and> parent (name args) = save_dir args
         \<and> (\<exists>f k. CHR ''/'' \<notin> set f
               \<and> name args = numbered_name (save_dir args) f k
               \<and> (\<forall>j<k. path_exists fs' (numbered_name (save_dir args) f j))
               \<and> path_name (name args) = f @ (if k = 0 then [] else ''-'' @ str_nat k) @ ''.onnx''
               \<and> (f \<noteq> [] \<or> k \<noteq> 0 \<longrightarrow> suffix (name args) = ''.onnx'')))"
proof (intro conjI impI)
  assume "get_safe_name fs self = Inr r"
  from get_safe_name_spec [OF this]
  show "\<exists>nm k. initial_name self = Inr nm
          \<and> r = numbered_name (save_dir self) (stem nm) k
          \<and> (\<forall>j<k. path_exists fs (numbered_name (save_dir self) (stem nm) j))
          \<and> \<not> path_exists fs r
          \<and> parent r = save_dir self
          \<and> path_name r = stem nm @ (if k = 0 then [] else ''-'' @ str_nat k) @ ''.onnx''
          \<and> (stem nm \<noteq> [] \<or> k \<noteq> 0 \<longrightarrow> suffix r = ''.onnx'')"
    by blast
next
  assume p: "post_init fs0 a = Inr (fs', args)"
  let ?mid = "\<lparr>checkpoint = Path_of (checkpoint a), config = config a, recipe = recipe a,
             no_qat = no_qat a, batch_size = batch_size a, image_shape = image_shape a,
             save_dir = Path_of (save_dir a), name = name a\<rparr>"
  from post_init_Inr [OF p] have g: "get_safe_name fs' ?mid = Inr (name args)"
    and sd: "save_dir args = Path_of (save_dir a)" by simp_all
  have sdm: "save_dir ?mid = save_dir args" using sd by simp
  from get_safe_name_spec [OF g] obtain nm k where
    nm: "initial_name ?mid = Inr nm"
    and k0: "name args = numbered_name (save_dir ?mid) (stem nm) k"
      "\<not> path_exists fs' (name args)"
      "\<forall>j<k. path_exists fs' (numbered_name (save_dir ?mid) (stem nm) j)"
      "parent (name args) = save_dir ?mid"
      "path_name (name args) = stem nm @ (if k = 0 then [] else ''-'' @ str_nat k) @ ''.onnx''"
      "stem nm \<noteq> [] \<or> k \<noteq> 0 \<longrightarrow> suffix (name args) = ''.onnx''"
    by blast
  note k = k0 [unfolded sdm]
  from initial_name_Path_of [OF nm] have ns: "CHR ''/'' \<notin> set (stem nm)"
    using stem_Path_of_no_slash by auto
  from k(2) show "\<not> path_exists fs' (name args)" .
  from k(4) show "parent (name args) = save_dir args" .
  from ns k(1,3,5,6)
  show "\<exists>f k. CHR ''/'' \<notin> set f
               \<and> name args = numbered_name (save_dir args) f k
               \<and> (\<forall>j<k. path_exists fs' (numbered_name (save_dir args) f j))
               \<and> path_name (name args) = f @ (if k = 0 then [] else ''-'' @ str_nat k) @ ''.onnx''
               \<and> (f \<noteq> [] \<or> k \<noteq> 0 \<longrightarrow> suffix (name args) = ''.onnx'')"
    by blast
qed

theorem get_safe_name_fresh_witness:
  "post_init example_fs example_args = Inr (example_fs, example_self)
   \<and> path_exists example_fs (Path False [''out'', ''m.onnx''])
   \<and> path_exists example_fs (Path False [''out'', ''m-1.onnx''])
   \<and> name example_self = Path False [''out'', ''m-2.onnx'']
   \<and> \<not> path_exists example_fs (name example_self)
   \<and> parent (name example_self) = save_dir example_self
   \<and> suffix (name example_self) = ''.onnx''"
proof -
  have e: "post_init example_fs example_args = Inr (example_fs, example_self)"
    by (rule example_post_init)
  have a: "path_exists example_fs (Path False [''out'', ''m.onnx''])"
    "path_exists example_fs (Path False [''out'', ''m-1.onnx''])"
    by (simp_all add: example_fs_def path_exists_def is_dir_def is_file_def)
  have n: "name example_self = Path False [''out'', ''m-2.onnx'']"
    by (simp add: example_self_def)
  from get_safe_name_fresh [THEN conjunct2, rule_format, OF e]
  have "\<not> path_exists example_fs (name example_self)"
    "parent (name example_self) = save_dir example_self"
    by simp_all
  moreover have "suffix (name example_self) = ''.onnx''" by code_simp
  ultimately show ?thesis using e a n by simp
qed

subsection \<open>The output directory exists afterwards\<close>

text \<open>A file system without the output directory, and arguments with a nested one.\<close>

definition fresh_fs :: filesystem where
  "fresh_fs = \<lparr>files = [Path False [''ck'', ''m.pth'']], dirs = [Path False [''ck'']]\<rparr>"




subsection \<open>The base name of the output\<close>

text \<open>
  Claim C9. The name before any collision suffix, for a construction that succeeds.
  Without a name (\<^verbatim>\<open>None\<close> or the empty string) it is the checkpoint's file name with its
  suffix replaced by \<^verbatim>\<open>.onnx\<close>, placed directly in \<open>save_dir\<close>. With a name, it is the
  stem of that name followed by \<^verbatim>\<open>.onnx\<close>, placed directly in \<open>save_dir\<close>. In both cases
  the stored name is the result of the search from that base name, and equals it when
  the base name is free.
\<close>

theorem default_base_name:
  "post_init fs a = Inr (fs', self) \<longrightarrow>
     (name a = None \<or> name a = Some [] \<longrightarrow>
        (\<exists>q base. with_suffix (checkpoint self) ''.onnx'' = Inr q
           \<and> path_name q = stem (checkpoint self) @ ''.onnx''
           \<and> base = joinpath (save_dir self) (path_name q)
           \<and> parent base = save_dir self
           \<and> path_name base = path_name q
           \<and> name self = safe_loop fs' (stem (checkpoint self)) base 0
           \<and> (\<not> path_exists fs' base \<longrightarrow> name self = base)))
   \<and> (\<forall>s. name a = Some s \<and> s \<noteq> [] \<longrightarrow>
        (\<exists>base. base = joinpath (save_dir self) (stem (Path_of s) @ ''.onnx'')
           \<and> parent base = save_dir self
           \<and> path_name base = stem (Path_of s) @ ''.onnx''
           \<and> name self = safe_loop fs' (stem (Path_of s)) base 0
           \<and> (\<not> path_exists fs' base \<longrightarrow> name self = base)))"
proof (intro impI conjI allI)
  let ?mid = "\<lparr>checkpoint = Path_of (checkpoint a), config = config a, recipe = recipe a,
             no_qat = no_qat a, batch_size = batch_size a, image_shape = image_shape a,
             save_dir = Path_of (save_dir a), name = name a\<rparr>"
  assume p: "post_init fs a = Inr (fs', self)"
  from post_init_Inr [OF p]
  have g: "get_safe_name fs' ?mid = Inr (name self)"
    and ck: "checkpoint self = Path_of (checkpoint a)"
    and sd: "save_dir self = Path_of (save_dir a)" by simp_all
  {
    assume n: "name a = None \<or> name a = Some []"
    let ?b = "stem (checkpoint self)"
    let ?q = "Path (absolute (checkpoint self)) (butlast (comps (checkpoint self)) @ [?b @ ''.onnx''])"
    let ?base = "joinpath (save_dir self) (path_name ?q)"
    have ne: "path_name (checkpoint self) \<noteq> []"
    proof
      assume "path_name (checkpoint self) = []"
      with n ck have "initial_name ?mid = Inl (Library ValueError)"
        by (intro initial_name_no_name) simp_all
      with g show False by (simp add: get_safe_name_def)
    qed
    have q: "with_suffix (checkpoint self) ''.onnx'' = Inr ?q"
      by (rule with_suffix_onnx [OF ne])
    have pq: "path_name ?q = ?b @ ''.onnx''" by (simp add: path_name_def)
    have b: "CHR ''/'' \<notin> set (?b @ ''.onnx'')" "?b @ ''.onnx'' \<noteq> []" "?b @ ''.onnx'' \<noteq> ''.''"
      using stem_Path_of_no_slash [of "checkpoint a"] ck by auto
    from n ck ne have "initial_name ?mid = Inr (Path False [?b @ ''.onnx''])
         \<and> stem (Path False [?b @ ''.onnx'']) = ?b"
      using initial_name_default [of ?mid "checkpoint a"] by simp
    with g sd pq have nm: "name self = safe_loop fs' ?b ?base 0"
      by (simp add: get_safe_name_def Let_def)
    have "parent ?base = save_dir self" "path_name ?base = path_name ?q"
      using parent_joinpath_single [OF b] path_name_joinpath_single [OF b] pq by simp_all
    with q pq nm safe_loop_free [of fs' ?base ?b 0]
    show "\<exists>q base. with_suffix (checkpoint self) ''.onnx'' = Inr q
           \<and> path_name q = stem (checkpoint self) @ ''.onnx''
           \<and> base = joinpath (save_dir self) (path_name q)
           \<and> parent base = save_dir self
           \<and> path_name base = path_name q
           \<and> name self = safe_loop fs' (stem (checkpoint self)) base 0
           \<and> (\<not> path_exists fs' base \<longrightarrow> name self = base)"
      by (intro exI [of _ ?q] exI [of _ ?base]) simp
  }
  {
    fix s
    assume n: "name a = Some s \<and> s \<noteq> []"
    let ?b = "stem (Path_of s)"
    let ?base = "joinpath (save_dir self) (?b @ ''.onnx'')"
    have b: "CHR ''/'' \<notin> set (?b @ ''.onnx'')" "?b @ ''.onnx'' \<noteq> []" "?b @ ''.onnx'' \<noteq> ''.''"
      using stem_Path_of_no_slash [of s] by auto
    from n have "initial_name ?mid = Inr (Path_of s)"
      using initial_name_given [of ?mid s] by simp
    with g sd have nm: "name self = safe_loop fs' ?b ?base 0"
      by (simp add: get_safe_name_def Let_def)
    have "parent ?base = save_dir self" "path_name ?base = ?b @ ''.onnx''"
      using parent_joinpath_single [OF b] path_name_joinpath_single [OF b] by simp_all
    with nm safe_loop_free [of fs' ?base ?b 0]
    show "\<exists>base. base = joinpath (save_dir self) (stem (Path_of s) @ ''.onnx'')
           \<and> parent base = save_dir self
           \<and> path_name base = stem (Path_of s) @ ''.onnx''
           \<and> name self = safe_loop fs' (stem (Path_of s)) base 0
           \<and> (\<not> path_exists fs' base \<longrightarrow> name self = base)"
      by simp
  }
qed

definition fresh_out_fs :: filesystem where
  "fresh_out_fs =
     \<lparr>files = [Path False [''ck'', ''m.pth'']],
      dirs = [Path False [''out''], Path False [''ck'']]\<rparr>"

definition fresh_self :: "(path, path) ExportArgs" where
  "fresh_self = example_self\<lparr>name := Path False [''out'', ''m.onnx'']\<rparr>"

definition named_self :: "(path, path) ExportArgs" where
  "named_self =
     example_self\<lparr>name := Path False [''out'', ''best.v2.onnx'']\<rparr>"

lemma fresh_post_init: "post_init fresh_fs example_args = Inr (fresh_out_fs, fresh_self)"
  by code_simp

lemma named_post_init:
  "post_init fresh_fs (example_args\<lparr>name := Some ''final/best.v2.pt''\<rparr>)
     = Inr (fresh_out_fs, named_self)"
  by code_simp

theorem default_base_name_witness:
  "post_init fresh_fs example_args = Inr (fresh_out_fs, fresh_self)
   \<and> name example_args = None
   \<and> path_name (checkpoint fresh_self) = ''m.pth''
   \<and> \<not> path_exists fresh_out_fs (Path False [''out'', ''m.onnx''])
   \<and> name fresh_self = Path False [''out'', ''m.onnx'']
   \<and> post_init fresh_fs (example_args\<lparr>name := Some ''final/best.v2.pt''\<rparr>)
        = Inr (fresh_out_fs, named_self)
   \<and> stem (Path_of ''final/best.v2.pt'') = ''best.v2''
   \<and> \<not> path_exists fresh_out_fs (Path False [''out'', ''best.v2.onnx''])
   \<and> name named_self = Path False [''out'', ''best.v2.onnx'']"
proof -
  note e1 = fresh_post_init
  note e2 = named_post_init
  have n1: "name example_args = None" by code_simp
  have c1: "path_name (checkpoint fresh_self) = ''m.pth''" by code_simp
  have f1: "\<not> path_exists fresh_out_fs (Path False [''out'', ''m.onnx''])" by code_simp
  have f2: "\<not> path_exists fresh_out_fs (Path False [''out'', ''best.v2.onnx''])" by code_simp
  have s2: "stem (Path_of ''final/best.v2.pt'') = ''best.v2''" by code_simp
  have w1: "with_suffix (checkpoint fresh_self) ''.onnx'' = Inr (Path False [''ck'', ''m.onnx''])"
    by code_simp
  have sd1: "joinpath (save_dir fresh_self) ''m.onnx'' = Path False [''out'', ''m.onnx'']"
    by code_simp
  have sd2: "joinpath (save_dir named_self) ''best.v2.onnx'' = Path False [''out'', ''best.v2.onnx'']"
    by code_simp
  from default_base_name [of fresh_fs example_args fresh_out_fs fresh_self] e1 n1
  obtain q base where
    "with_suffix (checkpoint fresh_self) ''.onnx'' = Inr q"
    "base = joinpath (save_dir fresh_self) (path_name q)"
    "\<not> path_exists fresh_out_fs base \<longrightarrow> name fresh_self = base"
    by blast
  with w1 sd1 f1 have r1: "name fresh_self = Path False [''out'', ''m.onnx'']"
    by (simp add: path_name_def)
  have n2: "name (example_args\<lparr>name := Some ''final/best.v2.pt''\<rparr>) = Some ''final/best.v2.pt''
       \<and> ''final/best.v2.pt'' \<noteq> []"
    by simp
  from default_base_name [of fresh_fs "example_args\<lparr>name := Some ''final/best.v2.pt''\<rparr>"
      fresh_out_fs named_self] e2 n2
  obtain base where
    "base = joinpath (save_dir named_self) (stem (Path_of ''final/best.v2.pt'') @ ''.onnx'')"
    "\<not> path_exists fresh_out_fs base \<longrightarrow> name named_self = base"
    by blast
  with s2 sd2 f2 have r2: "name named_self = Path False [''out'', ''best.v2.onnx'']"
    by simp
  from e1 n1 c1 f1 r1 e2 s2 f2 r2 show ?thesis by blast
qed

section \<open>Calls into the libraries\<close>

text \<open>
  Objects that belong to a library (a network, an optimizer, a logger, a tensor) are
  opaque: the model knows their identity only. A call into a library is recorded as an
  event of a trace, in the order the calls are made; what a call returns is given by the
  \<open>library\<close> record. The trace describes a run in which every library call returns: an
  exception inside a library call would end the run at that call.
\<close>

type_synonym obj = nat

text \<open>A network, possibly wrapped for data-parallel training (\<^verbatim>\<open>model.module\<close> unwraps).\<close>

datatype module =
    Module obj
  | DataParallel module
  | DistributedDataParallel module

record modifier =
  start_epoch :: rat
  end_epoch :: rat

text \<open>The attributes of a \<^verbatim>\<open>ScheduledModifierManager\<close> that the repository reads.\<close>

record manager =
  manager_str :: string
  learning_rate_modifiers :: "modifier list"
  epoch_modifiers :: "modifier list"
  pruning_modifiers :: "modifier list"
  quantization_modifiers :: "modifier list"
  max_epochs :: int

record wandb_logger =
  wandb :: "obj option"

text \<open>
  A \<^verbatim>\<open>SparsificationGroupLogger\<close>; its \<open>lambda_func\<close> is the closure \<^verbatim>\<open>_logging_lambda\<close>,
  represented by the one variable it captures.
\<close>

datatype group_logger =
  SparsificationGroupLogger (lambda_func: "wandb_logger option") (tensorboard: "obj option")

datatype event =
    Set_cfg string
  | Yolact_init module
  | Manager_from_yaml string
  | Manager_apply manager module
  | Manager_initialize manager module rat
  | Manager_initialize_loggers manager "group_logger list"
  | Manager_modify manager module obj nat obj
  | Logging_debug string
  | Logging_info string
  | Logger_info obj string
  | Torch_load path
  | Load_state_dict module obj
  | Torch_randn "int list"
  | Export_onnx module obj string bool
  | Wandb_log wandb_logger "(string \<times> rat) list"
  | Wandb_Artifact obj string string
  | Artifact_new_file string
  | File_write string
  | Wandb_log_artifact obj

record library =
  yolact_new :: "string \<Rightarrow> module"
  from_yaml :: "string \<Rightarrow> manager"
  modify_result :: "manager \<Rightarrow> module \<Rightarrow> obj \<Rightarrow> nat \<Rightarrow> obj \<Rightarrow> obj"
  torch_load :: "path \<Rightarrow> obj"
  torch_randn :: "int list \<Rightarrow> obj"

subsection \<open>The export function\<close>

fun join_sep :: "string \<Rightarrow> string list \<Rightarrow> string" where
  "join_sep sep [] = []"
| "join_sep sep [x] = x"
| "join_sep sep (x # y # ys) = x @ sep @ join_sep sep (y # ys)"

text \<open>\<^verbatim>\<open>str(p)\<close> for a path.\<close>

definition path_str :: "path \<Rightarrow> string" where
  "path_str p =
     (if comps p = [] then (if absolute p then ''/'' else ''.'')
      else (if absolute p then ''/'' else []) @ join_sep ''/'' (comps p))"

text \<open>
  \<^verbatim>\<open>export(args)\<close>, returning the trace extended by the calls it makes. The arguments of
  \<^verbatim>\<open>export_onnx\<close> are evaluated before the call, so \<^verbatim>\<open>torch.randn\<close> comes first.
\<close>

definition export :: "library \<Rightarrow> (path, path) ExportArgs \<Rightarrow> event list \<Rightarrow> event list" where
  "export lib args tr =
     (let batch_shape = batch_size args # image_shape args;
          tr = tr @ [Set_cfg (config args)];
          model = yolact_new lib (config args);
          tr = tr @ [Yolact_init model];
          tr = (case recipe args of
                  None \<Rightarrow> tr
                | Some r \<Rightarrow>
                    let manager = from_yaml lib r
                    in tr @ [Manager_from_yaml r, Manager_apply manager model]);
          tr = tr @ [Logging_debug (''Loading state dict from checkpoint ''
                                      @ path_str (checkpoint args))];
          state = torch_load lib (checkpoint args);
          tr = tr @ [Torch_load (checkpoint args), Load_state_dict model state];
          sample_batch = torch_randn lib batch_shape;
          tr = tr @ [Torch_randn batch_shape,
                     Export_onnx model sample_batch (path_str (name args)) (\<not> no_qat args)];
          tr = tr @ [Logging_info (''Model checkpoint exported to '' @ path_str (name args))]
      in tr)"

text \<open>The three calls that claim C5 names: apply the recipe, load the weights, export.\<close>

fun is_main_call :: "event \<Rightarrow> bool" where
  "is_main_call (Manager_apply m md) = True"
| "is_main_call (Load_state_dict md s) = True"
| "is_main_call (Export_onnx md s f q) = True"
| "is_main_call e = False"

text \<open>
  Claim C5. The calls that \<^verbatim>\<open>export\<close> adds to the trace are, in this order: the
  configuration and the construction of the network; only when a recipe is given, the
  loading of the recipe and its application to that network; the loading of the
  checkpoint into the network; the export of the network with a sample batch of shape
  \<^verbatim>\<open>(batch_size, *image_shape)\<close>, the output name as file path, and \<open>convert_qat\<close> the
  negation of \<open>no_qat\<close>. Of the three calls the claim names, at most three are made, in the
  order apply, load, export.
\<close>

theorem export_call_sequence:
  "export lib args tr =
     tr @ [Set_cfg (config args), Yolact_init (yolact_new lib (config args))]
        @ (case recipe args of
             None \<Rightarrow> []
           | Some r \<Rightarrow> [Manager_from_yaml r,
                        Manager_apply (from_yaml lib r) (yolact_new lib (config args))])
        @ [Logging_debug (''Loading state dict from checkpoint '' @ path_str (checkpoint args)),
           Torch_load (checkpoint args),
           Load_state_dict (yolact_new lib (config args)) (torch_load lib (checkpoint args)),
           Torch_randn (batch_size args # image_shape args),
           Export_onnx (yolact_new lib (config args))
             (torch_randn lib (batch_size args # image_shape args))
             (path_str (name args)) (\<not> no_qat args),
           Logging_info (''Model checkpoint exported to '' @ path_str (name args))]
   \<and> filter is_main_call (drop (length tr) (export lib args tr)) =
       (case recipe args of
          None \<Rightarrow> []
        | Some r \<Rightarrow> [Manager_apply (from_yaml lib r) (yolact_new lib (config args))])
       @ [Load_state_dict (yolact_new lib (config args)) (torch_load lib (checkpoint args)),
          Export_onnx (yolact_new lib (config args))
            (torch_randn lib (batch_size args # image_shape args))
            (path_str (name args)) (\<not> no_qat args)]"
proof -
  have eq: "export lib args tr =
     tr @ [Set_cfg (config args), Yolact_init (yolact_new lib (config args))]
        @ (case recipe args of
             None \<Rightarrow> []
           | Some r \<Rightarrow> [Manager_from_yaml r,
                        Manager_apply (from_yaml lib r) (yolact_new lib (config args))])
        @ [Logging_debug (''Loading state dict from checkpoint '' @ path_str (checkpoint args)),
           Torch_load (checkpoint args),
           Load_state_dict (yolact_new lib (config args)) (torch_load lib (checkpoint args)),
           Torch_randn (batch_size args # image_shape args),
           Export_onnx (yolact_new lib (config args))
             (torch_randn lib (batch_size args # image_shape args))
             (path_str (name args)) (\<not> no_qat args),
           Logging_info (''Model checkpoint exported to '' @ path_str (name args))]"
    by (cases "recipe args") (simp_all add: export_def Let_def)
  show ?thesis
  proof (rule conjI [OF eq])
    show "filter is_main_call (drop (length tr) (export lib args tr)) =
       (case recipe args of
          None \<Rightarrow> []
        | Some r \<Rightarrow> [Manager_apply (from_yaml lib r) (yolact_new lib (config args))])
       @ [Load_state_dict (yolact_new lib (config args)) (torch_load lib (checkpoint args)),
          Export_onnx (yolact_new lib (config args))
            (torch_randn lib (batch_size args # image_shape args))
            (path_str (name args)) (\<not> no_qat args)]"
      unfolding eq by (cases "recipe args") simp_all
  qed
qed

section \<open>The command line of the export script\<close>










subsection \<open>Converting an argument to an integer\<close>







subsection \<open>Recognising options\<close>









subsection \<open>Consuming an option\<close>










subsection \<open>Only an option beginning with \<^verbatim>\<open>--ch\<close> selects the checkpoint\<close>


















subsection \<open>A command line with the checkpoint only\<close>









subsection \<open>The checkpoint must exist\<close>














section \<open>The sparsification wrapper\<close>

text \<open>
  \<^verbatim>\<open>SparseMLWrapper\<close> keeps a network, a recipe and, when the recipe is not empty, the
  manager loaded from it. A method takes the wrapper and the trace of library calls and
  returns its result with the wrapper and the trace afterwards, or the \<^verbatim>\<open>AttributeError\<close>
  of an attribute access on \<^verbatim>\<open>None\<close>.
\<close>

record SparseMLWrapper =
  enabled :: bool
  model :: module
  recipe :: "string option"
  manager :: "manager option"
  logger :: "obj option"

type_synonym 'r outcome = "error + ('r \<times> SparseMLWrapper \<times> event list)"

definition is_parallel :: "module \<Rightarrow> bool" where
  "is_parallel m = (case m of Module _ \<Rightarrow> False | _ \<Rightarrow> True)"

text \<open>\<^verbatim>\<open>model.module\<close>, read only from a network for which \<open>is_parallel\<close> holds.\<close>

fun module_attr :: "module \<Rightarrow> module" where
  "module_attr (DataParallel m) = m"
| "module_attr (DistributedDataParallel m) = m"
| "module_attr (Module i) = Module i"

text \<open>\<^verbatim>\<open>bool(recipe)\<close>: \<^verbatim>\<open>None\<close> and the empty string are false.\<close>

definition truthy :: "string option \<Rightarrow> bool" where
  "truthy r = (case r of None \<Rightarrow> False | Some s \<Rightarrow> s \<noteq> [])"

definition SparseMLWrapper_init ::
  "library \<Rightarrow> module \<Rightarrow> string option \<Rightarrow> event list \<Rightarrow> SparseMLWrapper \<times> event list" where
  "SparseMLWrapper_init lib mdl rcp tr =
     (let en = truthy rcp;
          md = (if is_parallel mdl then module_attr mdl else mdl)
      in case rcp of
           None \<Rightarrow>
             (\<lparr>enabled = en, model = md, recipe = rcp, manager = None, logger = None\<rparr>, tr)
         | Some r \<Rightarrow>
             if en then
               (\<lparr>enabled = en, model = md, recipe = rcp, manager = Some (from_yaml lib r),
                 logger = None\<rparr>,
                tr @ [Manager_from_yaml r])
             else
               (\<lparr>enabled = en, model = md, recipe = rcp, manager = None, logger = None\<rparr>, tr))"

text \<open>\<^verbatim>\<open>str(self.manager)\<close>; \<^verbatim>\<open>str(None)\<close> is \<^verbatim>\<open>'None'\<close>.\<close>

definition state_dict :: "SparseMLWrapper \<Rightarrow> event list \<Rightarrow> (string \<times> string option) list outcome" where
  "state_dict self tr =
     Inr ([(''recipe'',
            if enabled self
            then Some (case manager self of None \<Rightarrow> ''None'' | Some m \<Rightarrow> manager_str m)
            else None)],
          self, tr)"

definition apply' :: "SparseMLWrapper \<Rightarrow> event list \<Rightarrow> unit outcome" where
  "apply' self tr =
     (if enabled self then
        (case manager self of
           None \<Rightarrow> Inl (Library AttributeError)
         | Some m \<Rightarrow> Inr ((), self, tr @ [Manager_apply m (model self)]))
      else Inr ((), self, tr))"

definition initialize :: "SparseMLWrapper \<Rightarrow> rat \<Rightarrow> event list \<Rightarrow> unit outcome" where
  "initialize self start tr =
     (if enabled self then
        (case manager self of
           None \<Rightarrow> Inl (Library AttributeError)
         | Some m \<Rightarrow> Inr ((), self, tr @ [Manager_initialize m (model self) start]))
      else Inr ((), self, tr))"

text \<open>
  The closure \<^verbatim>\<open>_logging_lambda\<close> that \<^verbatim>\<open>initialize_loggers\<close> hands to the group logger
  (\<open>step\<close> and \<open>walltime\<close> are not used).
\<close>

definition logging_lambda ::
  "wandb_logger option \<Rightarrow> string \<Rightarrow> rat option \<Rightarrow> (string \<times> rat) list option
     \<Rightarrow> event list \<Rightarrow> event list" where
  "logging_lambda wl log_tag log_val log_vals tr =
     (case wl of
        None \<Rightarrow> tr
      | Some w \<Rightarrow>
          if wandb w = None then tr
          else
            let tr = (case log_val of None \<Rightarrow> tr | Some v \<Rightarrow> tr @ [Wandb_log w [(log_tag, v)]]);
                tr = (case log_vals of
                        None \<Rightarrow> tr
                      | Some vs \<Rightarrow> if vs \<noteq> [] then tr @ [Wandb_log w vs] else tr)
            in tr)"

definition initialize_loggers ::
  "SparseMLWrapper \<Rightarrow> obj option \<Rightarrow> obj option \<Rightarrow> wandb_logger option \<Rightarrow> int
     \<Rightarrow> event list \<Rightarrow> unit outcome" where
  "initialize_loggers self lg tb_writer wl rank tr =
     (let self = self\<lparr>logger := lg\<rparr> in
      if enabled self \<and> (rank = - 1 \<or> rank = 0) then
        (case manager self of
           None \<Rightarrow> Inl (Library AttributeError)
         | Some m \<Rightarrow>
             let tr = tr @ [Manager_initialize_loggers m
                              [SparsificationGroupLogger wl tb_writer]]
             in case wl of
                  None \<Rightarrow> Inl (Library AttributeError)
                | Some w \<Rightarrow>
                    (case wandb w of
                       None \<Rightarrow> Inr ((), self, tr)
                     | Some wb \<Rightarrow>
                         Inr ((), self,
                              tr @ [Wandb_Artifact wb ''recipe'' ''recipe'',
                                    Artifact_new_file ''recipe.yaml'',
                                    File_write (manager_str m),
                                    Wandb_log_artifact wb])))
      else Inr ((), self, tr))"

text \<open>\<^verbatim>\<open>modify\<close>; the data loader is the list of its batches, \<^verbatim>\<open>len\<close> its length.\<close>

definition modify ::
  "library \<Rightarrow> SparseMLWrapper \<Rightarrow> obj \<Rightarrow> obj \<Rightarrow> module \<Rightarrow> obj list \<Rightarrow> event list
     \<Rightarrow> obj outcome" where
  "modify lib self scaler optimizer mdl dataloader tr =
     (if enabled self then
        (case manager self of
           None \<Rightarrow> Inl (Library AttributeError)
         | Some m \<Rightarrow>
             Inr (modify_result lib m mdl optimizer (length dataloader) scaler, self,
                  tr @ [Manager_modify m mdl optimizer (length dataloader) scaler]))
      else Inr (scaler, self, tr))"

definition check_lr_override ::
  "SparseMLWrapper \<Rightarrow> obj option \<Rightarrow> event list \<Rightarrow> obj option outcome" where
  "check_lr_override self scheduler tr =
     (if enabled self then
        (case manager self of
           None \<Rightarrow> Inl (Library AttributeError)
         | Some m \<Rightarrow>
             if learning_rate_modifiers m \<noteq> [] then
               (case logger self of
                  None \<Rightarrow> Inl (Library AttributeError)
                | Some l \<Rightarrow>
                    Inr (None, self,
                         tr @ [Logger_info l
                                 ''Disabling LR scheduler, managing LR using SparseML recipe'']))
             else Inr (scheduler, self, tr))
      else Inr (scheduler, self, tr))"

definition str_int :: "int \<Rightarrow> string" where
  "str_int i = (if i < 0 then CHR ''-'' # str_nat (nat (- i)) else str_nat (nat i))"

definition check_epoch_override :: "SparseMLWrapper \<Rightarrow> int \<Rightarrow> event list \<Rightarrow> int outcome" where
  "check_epoch_override self epochs tr =
     (if enabled self then
        (case manager self of
           None \<Rightarrow> Inl (Library AttributeError)
         | Some m \<Rightarrow>
             if epoch_modifiers m \<noteq> [] \<and> max_epochs m \<noteq> 0 then
               (let epochs = (if max_epochs m \<noteq> 0 then max_epochs m else epochs) in
                case logger self of
                  None \<Rightarrow> Inl (Library AttributeError)
                | Some l \<Rightarrow>
                    Inr (epochs, self,
                         tr @ [Logger_info l
                                 (''Overriding number of epochs from SparseML manager to ''
                                  @ str_int epochs)]))
             else Inr (epochs, self, tr))
      else Inr (epochs, self, tr))"

text \<open>
  \<^verbatim>\<open>qat_active\<close>: the list of modifiers is tested for emptiness, then \<^verbatim>\<open>min\<close> runs over
  the start epochs.
\<close>

definition qat_active :: "SparseMLWrapper \<Rightarrow> rat \<Rightarrow> event list \<Rightarrow> bool outcome" where
  "qat_active self epoch tr =
     (if enabled self then
        (case manager self of
           None \<Rightarrow> Inl (Library AttributeError)
         | Some m \<Rightarrow>
             (case map start_epoch (quantization_modifiers m) of
                [] \<Rightarrow> Inr (False, self, tr)
              | s # ss \<Rightarrow>
                  let qat_start = fold min ss s
                  in Inr (qat_start < epoch + 1, self, tr)))
      else Inr (False, self, tr))"

definition reset_best :: "SparseMLWrapper \<Rightarrow> rat \<Rightarrow> event list \<Rightarrow> bool outcome" where
  "reset_best self epoch tr =
     (if \<not> enabled self then Inr (False, self, tr)
      else
        (case manager self of
           None \<Rightarrow> Inl (Library AttributeError)
         | Some m \<Rightarrow>
             let pruning_start =
                   (case map start_epoch (pruning_modifiers m) of
                      [] \<Rightarrow> - 1
                    | s # ss \<Rightarrow> \<lfloor>fold max ss s\<rfloor>);
                 pruning_end =
                   (case map end_epoch (pruning_modifiers m) of
                      [] \<Rightarrow> - 1
                    | s # ss \<Rightarrow> \<lceil>fold max ss s\<rceil>);
                 qat_start =
                   (case map start_epoch (quantization_modifiers m) of
                      [] \<Rightarrow> - 1
                    | s # ss \<Rightarrow> \<lfloor>fold max ss s\<rfloor>)
             in Inr ((of_int pruning_start \<le> epoch \<and> epoch \<le> of_int pruning_end)
                     \<or> epoch = of_int qat_start, self, tr)))"

subsection \<open>A manager and a library for concrete runs\<close>

definition example_manager :: manager where
  "example_manager =
     \<lparr>manager_str = ''modifiers: ...'',
      learning_rate_modifiers = [\<lparr>start_epoch = 0, end_epoch = 50\<rparr>],
      epoch_modifiers = [\<lparr>start_epoch = 0, end_epoch = 52\<rparr>],
      pruning_modifiers = [\<lparr>start_epoch = 2, end_epoch = 30\<rparr>],
      quantization_modifiers = [\<lparr>start_epoch = 50, end_epoch = - 1\<rparr>,
                                \<lparr>start_epoch = 48, end_epoch = - 1\<rparr>],
      max_epochs = 52\<rparr>"

definition example_library :: library where
  "example_library =
     \<lparr>yolact_new = (\<lambda>c. Module 1), from_yaml = (\<lambda>r. example_manager),
      modify_result = (\<lambda>m md opt steps scaler. 9),
      torch_load = (\<lambda>p. 2), torch_randn = (\<lambda>shape. 3)\<rparr>"

subsection \<open>The wrapper without a recipe\<close>

definition disabled_wrapper :: SparseMLWrapper where
  "disabled_wrapper = fst (SparseMLWrapper_init example_library (DataParallel (Module 4)) None [])"

definition enabled_wrapper :: SparseMLWrapper where
  "enabled_wrapper =
     fst (SparseMLWrapper_init example_library (DataParallel (Module 4)) (Some ''recipe.yaml'') [])"

lemma init_disabled:
  "\<not> truthy rcp \<Longrightarrow>
     SparseMLWrapper_init lib mdl rcp tr =
       (\<lparr>enabled = False,
         model = (case mdl of Module _ \<Rightarrow> mdl | DataParallel m \<Rightarrow> m
                  | DistributedDataParallel m \<Rightarrow> m),
         recipe = rcp, manager = None, logger = None\<rparr>, tr)"
  by (cases mdl)
     (auto simp: SparseMLWrapper_init_def truthy_def is_parallel_def Let_def split: option.splits)

lemma init_enabled:
  "r \<noteq> [] \<Longrightarrow>
     SparseMLWrapper_init lib mdl (Some r) tr =
       (\<lparr>enabled = True,
         model = (case mdl of Module _ \<Rightarrow> mdl | DataParallel m \<Rightarrow> m
                  | DistributedDataParallel m \<Rightarrow> m),
         recipe = Some r, manager = Some (from_yaml lib r), logger = None\<rparr>,
        tr @ [Manager_from_yaml r])"
  by (cases mdl) (simp_all add: SparseMLWrapper_init_def truthy_def is_parallel_def Let_def)

text \<open>
  Claim C3, as the code has it. A wrapper that is not enabled makes no library call in any
  method and returns the argument passed through (\<open>scaler\<close>, \<open>scheduler\<close>, \<open>epochs\<close>),
  \<open>False\<close> for \<^verbatim>\<open>qat_active\<close> and \<^verbatim>\<open>reset_best\<close>, and a recipe of \<^verbatim>\<open>None\<close> for
  \<^verbatim>\<open>state_dict\<close>. Every method but \<^verbatim>\<open>initialize_loggers\<close> leaves the wrapper as it is;
  \<^verbatim>\<open>initialize_loggers\<close> stores its logger in the wrapper and changes nothing else. A
  wrapper constructed with \<^verbatim>\<open>None\<close> or the empty recipe is not enabled, has no manager,
  and its construction makes no library call.
\<close>

theorem disabled_methods:
  "(\<not> enabled w \<longrightarrow>
      state_dict w tr = Inr ([(''recipe'', None)], w, tr)
      \<and> apply' w tr = Inr ((), w, tr)
      \<and> initialize w start tr = Inr ((), w, tr)
      \<and> initialize_loggers w lg tb wl rank tr = Inr ((), w\<lparr>logger := lg\<rparr>, tr)
      \<and> modify lib w scaler optimizer mdl dataloader tr = Inr (scaler, w, tr)
      \<and> check_lr_override w scheduler tr = Inr (scheduler, w, tr)
      \<and> check_epoch_override w epochs tr = Inr (epochs, w, tr)
      \<and> qat_active w epoch tr = Inr (False, w, tr)
      \<and> reset_best w epoch tr = Inr (False, w, tr))
   \<and> (rcp = None \<or> rcp = Some [] \<longrightarrow>
        \<not> enabled (fst (SparseMLWrapper_init lib mdl rcp tr))
        \<and> manager (fst (SparseMLWrapper_init lib mdl rcp tr)) = None
        \<and> snd (SparseMLWrapper_init lib mdl rcp tr) = tr)"
proof (intro conjI impI)
  assume d: "\<not> enabled w"
  from d show "state_dict w tr = Inr ([(''recipe'', None)], w, tr)"
    by (simp add: state_dict_def)
  from d show "apply' w tr = Inr ((), w, tr)"
    by (simp add: apply'_def)
  from d show "initialize w start tr = Inr ((), w, tr)"
    by (simp add: initialize_def)
  from d show "initialize_loggers w lg tb wl rank tr = Inr ((), w\<lparr>logger := lg\<rparr>, tr)"
    by (simp add: initialize_loggers_def)
  from d show "modify lib w scaler optimizer mdl dataloader tr = Inr (scaler, w, tr)"
    by (simp add: modify_def)
  from d show "check_lr_override w scheduler tr = Inr (scheduler, w, tr)"
    by (simp add: check_lr_override_def)
  from d show "check_epoch_override w epochs tr = Inr (epochs, w, tr)"
    by (simp add: check_epoch_override_def)
  from d show "qat_active w epoch tr = Inr (False, w, tr)"
    by (simp add: qat_active_def)
  from d show "reset_best w epoch tr = Inr (False, w, tr)"
    by (simp add: reset_best_def)
next
  assume "rcp = None \<or> rcp = Some []"
  then have "\<not> truthy rcp" by (auto simp: truthy_def)
  from init_disabled [OF this, of lib mdl tr]
  show "\<not> enabled (fst (SparseMLWrapper_init lib mdl rcp tr))"
    and "manager (fst (SparseMLWrapper_init lib mdl rcp tr)) = None"
    and "snd (SparseMLWrapper_init lib mdl rcp tr) = tr"
    by simp_all
qed

theorem disabled_methods_witness:
  "\<not> enabled disabled_wrapper
   \<and> modify example_library disabled_wrapper 11 12 (Module 4) [1, 2, 3] [] =
       Inr (11, disabled_wrapper, [])
   \<and> check_epoch_override disabled_wrapper 80 [] = Inr (80, disabled_wrapper, [])
   \<and> qat_active disabled_wrapper 3 [] = Inr (False, disabled_wrapper, [])
   \<and> initialize_loggers disabled_wrapper (Some 7) None None 0 [] =
       Inr ((), disabled_wrapper\<lparr>logger := Some 7\<rparr>, [])"
proof -
  have d: "\<not> enabled disabled_wrapper"
    using disabled_methods [where rcp = None and lib = example_library
        and mdl = "DataParallel (Module 4)" and tr = "[]"]
    by (simp add: disabled_wrapper_def)
  from disabled_methods [where w = disabled_wrapper and tr = "[]" and lg = "Some 7"
      and tb = None and wl = None and rank = 0 and lib = example_library and scaler = 11
      and optimizer = 12 and mdl = "Module 4" and dataloader = "[1, 2, 3]" and epochs = 80
      and epoch = 3] d
  show ?thesis by simp
qed

text \<open>
  The claim as the specification states it fails for \<^verbatim>\<open>initialize_loggers\<close>: on a wrapper
  constructed without a recipe the call changes the wrapper's state.
\<close>

theorem disabled_methods_counterexample:
  "disabled_wrapper = fst (SparseMLWrapper_init example_library (DataParallel (Module 4)) None [])
   \<and> \<not> enabled disabled_wrapper
   \<and> initialize_loggers disabled_wrapper (Some 7) None None 0 [] \<noteq> Inr ((), disabled_wrapper, [])
   \<and> logger (fst (snd (projr (initialize_loggers disabled_wrapper (Some 7) None None 0 []))))
        \<noteq> logger disabled_wrapper"
  by (simp add: disabled_wrapper_def SparseMLWrapper_init_def truthy_def is_parallel_def
      initialize_loggers_def)

subsection \<open>The wrapper with a recipe\<close>

text \<open>
  Claim C7. On an enabled wrapper with its manager, \<^verbatim>\<open>apply\<close> adds one call to the trace,
  \<^verbatim>\<open>manager.apply\<close> on the wrapped network; \<^verbatim>\<open>initialize\<close> adds one call,
  \<^verbatim>\<open>manager.initialize\<close> with the wrapped network and the start epoch; \<^verbatim>\<open>modify\<close> adds
  one call, \<^verbatim>\<open>manager.modify\<close> with \<open>steps_per_epoch\<close> the length of the data loader and
  \<open>wrap_optim\<close> the scaler, and returns what that call returns. None of them changes the
  wrapper. A wrapper constructed with a recipe that is not empty is enabled, its manager
  is the one loaded from the recipe, and its network is the unwrapped one.
\<close>

theorem enabled_delegation:
  "(enabled w \<and> manager w = Some m \<longrightarrow>
      apply' w tr = Inr ((), w, tr @ [Manager_apply m (model w)])
      \<and> initialize w start tr = Inr ((), w, tr @ [Manager_initialize m (model w) start])
      \<and> modify lib w scaler optimizer mdl dataloader tr =
          Inr (modify_result lib m mdl optimizer (length dataloader) scaler, w,
               tr @ [Manager_modify m mdl optimizer (length dataloader) scaler]))
   \<and> (r \<noteq> [] \<longrightarrow>
        enabled (fst (SparseMLWrapper_init lib mdl (Some r) tr))
        \<and> manager (fst (SparseMLWrapper_init lib mdl (Some r) tr)) = Some (from_yaml lib r)
        \<and> model (fst (SparseMLWrapper_init lib mdl (Some r) tr)) =
            (case mdl of Module _ \<Rightarrow> mdl | DataParallel md \<Rightarrow> md
             | DistributedDataParallel md \<Rightarrow> md)
        \<and> snd (SparseMLWrapper_init lib mdl (Some r) tr) = tr @ [Manager_from_yaml r])"
proof (intro conjI impI)
  assume e: "enabled w \<and> manager w = Some m"
  from e show "apply' w tr = Inr ((), w, tr @ [Manager_apply m (model w)])"
    by (simp add: apply'_def)
  from e show "initialize w start tr = Inr ((), w, tr @ [Manager_initialize m (model w) start])"
    by (simp add: initialize_def)
  from e show "modify lib w scaler optimizer mdl dataloader tr =
          Inr (modify_result lib m mdl optimizer (length dataloader) scaler, w,
               tr @ [Manager_modify m mdl optimizer (length dataloader) scaler])"
    by (simp add: modify_def)
next
  assume "r \<noteq> []"
  from init_enabled [OF this, of lib mdl tr]
  show "enabled (fst (SparseMLWrapper_init lib mdl (Some r) tr))"
    and "manager (fst (SparseMLWrapper_init lib mdl (Some r) tr)) = Some (from_yaml lib r)"
    and "model (fst (SparseMLWrapper_init lib mdl (Some r) tr)) =
            (case mdl of Module _ \<Rightarrow> mdl | DataParallel md \<Rightarrow> md
             | DistributedDataParallel md \<Rightarrow> md)"
    and "snd (SparseMLWrapper_init lib mdl (Some r) tr) = tr @ [Manager_from_yaml r]"
    by simp_all
qed

theorem enabled_delegation_witness:
  "enabled enabled_wrapper \<and> manager enabled_wrapper = Some example_manager
   \<and> model enabled_wrapper = Module 4
   \<and> apply' enabled_wrapper [] = Inr ((), enabled_wrapper, [Manager_apply example_manager (Module 4)])
   \<and> initialize enabled_wrapper 0 [] =
       Inr ((), enabled_wrapper, [Manager_initialize example_manager (Module 4) 0])
   \<and> modify example_library enabled_wrapper 11 12 (Module 4) [1, 2, 3] [] =
       Inr (9, enabled_wrapper, [Manager_modify example_manager (Module 4) 12 3 11])"
proof -
  have ne: "''recipe.yaml'' \<noteq> []" by simp
  from enabled_delegation [where r = "''recipe.yaml''" and lib = example_library
      and mdl = "DataParallel (Module 4)" and tr = "[]"] ne
  have a: "enabled enabled_wrapper" "manager enabled_wrapper = Some example_manager"
    "model enabled_wrapper = Module 4"
    by (simp_all add: enabled_wrapper_def example_library_def)
  from enabled_delegation [where w = enabled_wrapper and m = example_manager and tr = "[]"
      and start = 0 and lib = example_library and scaler = 11 and optimizer = 12
      and mdl = "Module 4" and dataloader = "[1, 2, 3]"] a
  show ?thesis by (simp add: example_library_def)
qed

subsection \<open>When quantization-aware training is active\<close>




section \<open>The inference wrapper\<close>

text \<open>
  \<^verbatim>\<open>DeepsparseWrapper\<close> holds a compiled engine, a detection routine and a mask network,
  all three objects of libraries. Tensors and arrays are opaque; the \<open>runtime\<close> record
  gives what each library call returns, and the calls are recorded in a trace.
\<close>

datatype tensor = Tensor obj

datatype ndarray = Ndarray obj

record DeepsparseWrapper =
  engine :: obj
  detect :: obj
  maskiou_net :: obj

datatype engine_event =
    Tensor_cpu tensor
  | Tensor_numpy tensor
  | Engine_mapped_run obj "ndarray list"
  | Torch_from_numpy ndarray
  | Detect_call obj "(string \<times> tensor) list" DeepsparseWrapper

record 'r runtime =
  tensor_cpu :: "tensor \<Rightarrow> tensor"
  tensor_numpy :: "tensor \<Rightarrow> ndarray"
  mapped_run :: "obj \<Rightarrow> ndarray list \<Rightarrow> (string \<times> ndarray) list"
  from_numpy :: "ndarray \<Rightarrow> tensor"
  detect_result :: "obj \<Rightarrow> (string \<times> tensor) list \<Rightarrow> DeepsparseWrapper \<Rightarrow> 'r"

text \<open>
  \<^verbatim>\<open>zip(keys, map(torch.from_numpy, values))\<close> as \<^verbatim>\<open>dict\<close> consumes it: \<^verbatim>\<open>map\<close> is lazy, so
  \<^verbatim>\<open>from_numpy\<close> is called once for each pair produced and not for values beyond the
  last key.
\<close>

fun zip_map ::
  "(ndarray \<Rightarrow> tensor) \<Rightarrow> string list \<Rightarrow> ndarray list \<Rightarrow> engine_event list
     \<Rightarrow> (string \<times> tensor) list \<times> engine_event list" where
  "zip_map f [] vs tr = ([], tr)"
| "zip_map f (k # ks) [] tr = ([], tr)"
| "zip_map f (k # ks) (v # vs) tr =
     (case zip_map f ks vs (tr @ [Torch_from_numpy v]) of
        (r, tr') \<Rightarrow> ((k, f v) # r, tr'))"

text \<open>
  \<^verbatim>\<open>__call__\<close>. The dictionaries are association lists in insertion order (the five keys
  are distinct, so \<^verbatim>\<open>dict\<close> keeps every pair).
\<close>

definition call ::
  "'r runtime \<Rightarrow> DeepsparseWrapper \<Rightarrow> tensor \<Rightarrow> engine_event list \<Rightarrow> 'r \<times> engine_event list" where
  "call rt self inputs tr =
     (let t = tensor_cpu rt inputs;
          tr = tr @ [Tensor_cpu inputs];
          batch = tensor_numpy rt t;
          tr = tr @ [Tensor_numpy t];
          outs = mapped_run rt (engine self) [batch];
          tr = tr @ [Engine_mapped_run (engine self) [batch]];
          keys = [''loc'', ''conf'', ''mask'', ''priors'', ''proto'']
      in case zip_map (from_numpy rt) keys (map snd outs) tr of
           (outs, tr) \<Rightarrow>
             (detect_result rt (detect self) outs self,
              tr @ [Detect_call (detect self) outs self]))"

lemma zip_map_eq:
  "zip_map f ks vs tr =
     (zip ks (map f vs), tr @ map Torch_from_numpy (take (length ks) vs))"
  by (induction f ks vs tr rule: zip_map.induct) simp_all

text \<open>
  Claim C4. \<^verbatim>\<open>__call__\<close> makes these library calls, in this order: \<^verbatim>\<open>cpu()\<close> on the
  input, \<^verbatim>\<open>numpy()\<close> on the result, \<^verbatim>\<open>mapped_run\<close> of the engine on the one-element list
  with that array, \<^verbatim>\<open>torch.from_numpy\<close> on the engine's outputs (the first five), and the
  detection routine on the dictionary that pairs the names \<^verbatim>\<open>loc\<close>, \<^verbatim>\<open>conf\<close>, \<^verbatim>\<open>mask\<close>,
  \<^verbatim>\<open>priors\<close>, \<^verbatim>\<open>proto\<close>, in this order, with the converted outputs, and on the wrapper
  itself. It returns what the detection routine returns. When the engine gives five
  outputs, the dictionary has exactly the five names as keys.
\<close>

theorem deepsparse_call_sequence:
  "(let batch = tensor_numpy rt (tensor_cpu rt inputs);
        vals = map snd (mapped_run rt (engine self) [batch]);
        d = zip [''loc'', ''conf'', ''mask'', ''priors'', ''proto''] (map (from_numpy rt) vals)
    in call rt self inputs tr =
         (detect_result rt (detect self) d self,
          tr @ [Tensor_cpu inputs, Tensor_numpy (tensor_cpu rt inputs),
                Engine_mapped_run (engine self) [batch]]
             @ map Torch_from_numpy (take 5 vals)
             @ [Detect_call (detect self) d self])
       \<and> (length vals = 5 \<longrightarrow>
            map fst d = [''loc'', ''conf'', ''mask'', ''priors'', ''proto'']
            \<and> map snd d = map (from_numpy rt) vals))"
proof -
  have five: "length [''loc'', ''conf'', ''mask'', ''priors'', ''proto''] = 5" by simp
  show ?thesis
    unfolding Let_def call_def zip_map_eq five by simp
qed

definition example_runtime :: "nat runtime" where
  "example_runtime =
     \<lparr>tensor_cpu = (\<lambda>t. t),
      tensor_numpy = (\<lambda>t. case t of Tensor i \<Rightarrow> Ndarray i),
      mapped_run = (\<lambda>e xs. [(''output_0'', Ndarray 10), (''output_1'', Ndarray 11),
                             (''output_2'', Ndarray 12), (''output_3'', Ndarray 13),
                             (''output_4'', Ndarray 14)]),
      from_numpy = (\<lambda>a. case a of Ndarray i \<Rightarrow> Tensor i),
      detect_result = (\<lambda>d outs self. length outs)\<rparr>"

definition example_wrapper :: DeepsparseWrapper where
  "example_wrapper = \<lparr>engine = 1, detect = 2, maskiou_net = 3\<rparr>"

theorem deepsparse_call_sequence_witness:
  "length (map snd (mapped_run example_runtime (engine example_wrapper)
             [tensor_numpy example_runtime (tensor_cpu example_runtime (Tensor 7))])) = 5
   \<and> call example_runtime example_wrapper (Tensor 7) [] =
       (5,
        [Tensor_cpu (Tensor 7), Tensor_numpy (Tensor 7), Engine_mapped_run 1 [Ndarray 7],
         Torch_from_numpy (Ndarray 10), Torch_from_numpy (Ndarray 11),
         Torch_from_numpy (Ndarray 12), Torch_from_numpy (Ndarray 13),
         Torch_from_numpy (Ndarray 14),
         Detect_call 2
           [(''loc'', Tensor 10), (''conf'', Tensor 11), (''mask'', Tensor 12),
            (''priors'', Tensor 13), (''proto'', Tensor 14)]
           example_wrapper])"
proof -
  have l: "length (map snd (mapped_run example_runtime (engine example_wrapper)
             [tensor_numpy example_runtime (tensor_cpu example_runtime (Tensor 7))])) = 5"
    by (simp add: example_runtime_def)
  from deepsparse_call_sequence [of example_runtime "Tensor 7" example_wrapper "[]"] l
  show ?thesis
    by (simp add: Let_def example_runtime_def example_wrapper_def)
qed

end
